theory Spec2Isabelle
  imports Main "HOL-Library.Char_ord" "HOL-Library.List_Lexorder" "HOL-Library.AList"
begin

section \<open>JSON values\<close>

text \<open>
  The engine works on the dynamically typed trees that \<^verbatim>\<open>encoding/json\<close> decodes into
  \<^verbatim>\<open>interface{}\<close>: \<^verbatim>\<open>nil\<close>, \<^verbatim>\<open>bool\<close>, \<^verbatim>\<open>float64\<close>, \<^verbatim>\<open>string\<close>,
  \<^verbatim>\<open>[]interface{}\<close> and \<^verbatim>\<open>map[string]interface{}\<close>. A Go map is an association list
  with distinct keys; the order of the list is the order in which one \<^verbatim>\<open>range\<close> over the
  map visits its entries, which Go leaves unspecified. No modelled function inspects the
  payload of a number other than to print it, so numbers carry an integer.
\<close>

datatype json =
    JNull
  | JBool bool
  | JNum int
  | JStr string
  | JArr "json list"
  | JObj "(string \<times> json) list"

datatype error =
    UnmarshalError
  | KeyNotFound string
  | ApiKeyNotSet
  | InputTooLong
  | GenerationFailed
  | CacheSetFailed

section \<open>Strings and the library\<close>

text \<open>
  The functions of package \<^verbatim>\<open>strings\<close> that the engine uses, on byte strings:
  \<^verbatim>\<open>Split\<close> and \<^verbatim>\<open>Join\<close> for a one-byte separator, \<^verbatim>\<open>HasPrefix\<close>, \<^verbatim>\<open>HasSuffix\<close>,
  \<^verbatim>\<open>Contains\<close>, \<^verbatim>\<open>TrimPrefix\<close>, \<^verbatim>\<open>TrimSpace\<close> (for the ASCII white space), and the
  decimal digits that \<^verbatim>\<open>%d\<close> prints for an index.
\<close>

fun splitOn :: "char \<Rightarrow> string \<Rightarrow> string list" where
  "splitOn sep [] = [[]]"
| "splitOn sep (c # cs) =
     (if c = sep then [] # splitOn sep cs
      else (case splitOn sep cs of
              [] \<Rightarrow> [[c]]
            | part # parts \<Rightarrow> (c # part) # parts))"

fun joinWith :: "string \<Rightarrow> string list \<Rightarrow> string" where
  "joinWith sep [] = []"
| "joinWith sep [part] = part"
| "joinWith sep (part # parts) = part @ sep @ joinWith sep parts"

fun hasPrefix :: "string \<Rightarrow> string \<Rightarrow> bool" where
  "hasPrefix s [] = True"
| "hasPrefix [] (p # ps) = False"
| "hasPrefix (c # cs) (p # ps) = (c = p \<and> hasPrefix cs ps)"

definition hasSuffix :: "string \<Rightarrow> string \<Rightarrow> bool" where
  "hasSuffix s suffix = hasPrefix (rev s) (rev suffix)"

fun contains :: "string \<Rightarrow> string \<Rightarrow> bool" where
  "contains [] sub = (sub = [])"
| "contains (c # cs) sub = (hasPrefix (c # cs) sub \<or> contains cs sub)"

definition trimPrefix :: "string \<Rightarrow> string \<Rightarrow> string" where
  "trimPrefix s prefix = (if hasPrefix s prefix then drop (length prefix) s else s)"

definition isSpace :: "char \<Rightarrow> bool" where
  "isSpace c = (c \<in> {CHR '' '', CHR 0x09, CHR 0x0A, CHR 0x0B, CHR 0x0C, CHR 0x0D})"

definition trimSpace :: "string \<Rightarrow> string" where
  "trimSpace s = rev (dropWhile isSpace (rev (dropWhile isSpace s)))"

fun digitsOf :: "nat \<Rightarrow> string" where
  "digitsOf n = (if n < 10 then [char_of (48 + n)] else digitsOf (n div 10) @ [char_of (48 + n mod 10)])"

declare digitsOf.simps [simp del]


text \<open>
  What the engine calls in packages outside the repository is a parameter:
  \<^verbatim>\<open>json.Marshal\<close> and \<^verbatim>\<open>json.MarshalIndent\<close> of a value, \<^verbatim>\<open>%v\<close> of a \<^verbatim>\<open>float64\<close>,
  \<^verbatim>\<open>json.Unmarshal\<close> of a text into a fresh \<^verbatim>\<open>map[string]interface{}\<close> and into a fresh
  \<^verbatim>\<open>[]string\<close> (what the target holds afterwards; the callers ignore the error), and
  \<^verbatim>\<open>FindAllString\<close> of the reference pattern.
\<close>

record golib =
  marshal :: "json \<Rightarrow> string"
  marshalIndent :: "json \<Rightarrow> string"
  formatFloat :: "int \<Rightarrow> string"
  unmarshalObject :: "string \<Rightarrow> (string \<times> json) list"
  unmarshalStrings :: "string \<Rightarrow> string list"
  findAllString :: "string \<Rightarrow> string list"


section \<open>Sub-standard expansion: \<^verbatim>\<open>handleSubStandard\<close>\<close>

definition skipAfterCount :: nat where
  "skipAfterCount = 50"

text \<open>The first list found among the values of the decoded object (\<^verbatim>\<open>break\<close> at the first hit).\<close>

fun findListJson :: "(string \<times> json) list \<Rightarrow> json list" where
  "findListJson [] = []"
| "findListJson ((k, v) # kvs) = (case v of JArr xs \<Rightarrow> xs | _ \<Rightarrow> findListJson kvs)"

text \<open>
  The loop over \<^verbatim>\<open>listJson\<close>. \<^verbatim>\<open>translate\<close> stands for the call
  \<^verbatim>\<open>Translate(ctx, subStandard, marshalledBody, authConfig, "skip_substandard")\<close>.
  Item 0 is translated in line and the loop continues; every later item is handed to a
  goroutine, and after the hand-over the loop breaks once \<^verbatim>\<open>cnt > skipAfterCount\<close>.
  A failed translation appends nothing. The goroutines append under a mutex in an
  order the scheduler chooses; the model appends in index order.
\<close>

fun translateItems :: "(json \<Rightarrow> error + string) \<Rightarrow> nat \<Rightarrow> json list \<Rightarrow> string list \<Rightarrow> string list" where
  "translateItems translate cnt [] parsedOutput = parsedOutput"
| "translateItems translate cnt (listItem # rest) parsedOutput =
     (if cnt = 0 then
        (case translate listItem of
           Inl err \<Rightarrow> translateItems translate (cnt + 1) rest parsedOutput
         | Inr schemalessOutput \<Rightarrow>
             translateItems translate (cnt + 1) rest (parsedOutput @ [schemalessOutput]))
      else
        (let parsedOutput' =
               (case translate listItem of
                  Inl err \<Rightarrow> parsedOutput
                | Inr schemalessOutput \<Rightarrow> parsedOutput @ [schemalessOutput])
         in if cnt > skipAfterCount then parsedOutput'
            else translateItems translate (cnt + 1) rest parsedOutput'))"

text \<open>\<^verbatim>\<open>finalOutput\<close>: the outputs between brackets, separated by commas.\<close>

fun joinOutputs :: "nat \<Rightarrow> string list \<Rightarrow> string" where
  "joinOutputs cnt [] = []"
| "joinOutputs cnt (output # rest) =
     (if cnt > 0 then '','' else []) @ output @ joinOutputs (cnt + 1) rest"

definition translateList :: "(json \<Rightarrow> error + string) \<Rightarrow> json list \<Rightarrow> error + string" where
  "translateList translate listJson =
     (if length listJson = 0 then Inr ''[]''
      else Inr (''['' @ joinOutputs 0 (translateItems translate 0 listJson []) @ '']''))"

text \<open>
  The argument is the decoded \<^verbatim>\<open>returnJson\<close>. A JSON array (or \<^verbatim>\<open>null\<close>) decodes into
  the slice; an object fails that and decodes into the map; any other value fails both
  and the error is returned.
\<close>

definition handleSubStandard :: "(json \<Rightarrow> error + string) \<Rightarrow> json \<Rightarrow> error + string" where
  "handleSubStandard translate returnJson =
     (case returnJson of
        JArr listJson \<Rightarrow> translateList translate listJson
      | JNull \<Rightarrow> translateList translate []
      | JObj mapJson \<Rightarrow> translateList translate (findListJson mapJson)
      | _ \<Rightarrow> Inl UnmarshalError)"

text \<open>The outputs of the items whose translation succeeded, in order.\<close>

definition succeeded :: "(json \<Rightarrow> error + string) \<Rightarrow> json list \<Rightarrow> string list" where
  "succeeded translate items =
     concat (map (\<lambda>listItem. case translate listItem of Inl err \<Rightarrow> [] | Inr out \<Rightarrow> [out]) items)"

section \<open>Single-flight generation: \<^verbatim>\<open>GptTranslate\<close>\<close>

text \<open>
  The cache is shared with every other caller, so what a read returns is not a function
  of what this caller wrote. The environment gives the answer of each \<^verbatim>\<open>GetCache\<close>
  call by its position among this caller's reads (\<open>None\<close> is the error return), the
  outcome of each call of the external generator by its attempt number, and the
  outcome of the final \<^verbatim>\<open>SetCache\<close>. What the caller does to the outside is returned as
  a list of events, in order.
\<close>

datatype event =
    Sleep nat
  | GetCacheE string
  | SetCacheE string string nat
  | SaveQueryE string string
  | CreateChatCompletionE

record gptEnv =
  apiKey :: string
  randomSleeptime :: nat
  systemMessage :: string
  md5hex :: "string \<Rightarrow> string"
  getCache :: "nat \<Rightarrow> string \<Rightarrow> string option"
  setCache :: "string \<Rightarrow> string \<Rightarrow> error option"
  createChatCompletion :: "nat \<Rightarrow> error + string"

definition maxInputSize :: nat where
  "maxInputSize = 5000"

definition maxIter :: nat where
  "maxIter = 6"

definition sleepTime :: nat where
  "sleepTime = 5"

text \<open>
  The polling loop of a caller that found the lock: read the result key, return it on a
  hit, stop once \<^verbatim>\<open>cnt >= maxIter\<close>, otherwise count and sleep \<^verbatim>\<open>sleepTime\<close> seconds
  (events carry milliseconds). The read of the lock key was read 0, so the read in round
  \<^verbatim>\<open>cnt\<close> is read \<^verbatim>\<open>cnt + 1\<close>.
\<close>

function pollCache :: "(nat \<Rightarrow> string \<Rightarrow> string option) \<Rightarrow> string \<Rightarrow> nat \<Rightarrow> string option \<times> event list" where
  "pollCache rd cacheKey cnt =
     (case rd (cnt + 1) cacheKey of
        Some cache \<Rightarrow> (Some cache, [GetCacheE cacheKey])
      | None \<Rightarrow>
          if cnt \<ge> maxIter then (None, [GetCacheE cacheKey])
          else (case pollCache rd cacheKey (cnt + 1) of
                  (r, ev) \<Rightarrow> (r, [GetCacheE cacheKey, Sleep (sleepTime * 1000)] @ ev)))"
  by pat_completeness auto
termination
  by (relation "measure (\<lambda>(rd, cacheKey, cnt). Suc maxIter - cnt)") auto

declare pollCache.simps [simp del]

text \<open>
  The generation loop: give up with the standard and an error once five attempts have
  failed; a failed attempt sleeps three seconds and counts.
\<close>

function generateLoop :: "(nat \<Rightarrow> error + string) \<Rightarrow> nat \<Rightarrow> (error + string) \<times> event list" where
  "generateLoop create cnt =
     (if cnt \<ge> 5 then (Inl GenerationFailed, [])
      else (case create cnt of
              Inl err \<Rightarrow>
                (case generateLoop create (cnt + 1) of
                   (r, ev) \<Rightarrow> (r, [CreateChatCompletionE, Sleep 3000] @ ev))
            | Inr content \<Rightarrow> (Inr content, [CreateChatCompletionE])))"
  by pat_completeness auto
termination
  by (relation "measure (\<lambda>(create, cnt). 5 - cnt)") auto

declare generateLoop.simps [simp del]

definition userQueryOf :: "string \<Rightarrow> string \<Rightarrow> string" where
  "userQueryOf standardFormat inputDataFormat =
     ''Standard:'' @ [CHR 0x0A] @ ''```json'' @ [CHR 0x0A] @ standardFormat @ [CHR 0x0A] @ ''```''
       @ [CHR 0x0A, CHR 0x0A, CHR 0x0A, CHR 0x0A]
       @ ''User Input:'' @ [CHR 0x0A] @ ''```json'' @ [CHR 0x0A] @ inputDataFormat @ [CHR 0x0A] @ ''```''"

text \<open>
  Everything after the lock handling: one more read of the result key, then
  \<^verbatim>\<open>SaveQuery\<close>, the generation loop and the write of the result (30 minutes).
  \<open>n\<close> is the number of reads made so far.
\<close>

definition generateAndStore ::
  "gptEnv \<Rightarrow> string \<Rightarrow> string \<Rightarrow> string \<Rightarrow> string \<Rightarrow> nat \<Rightarrow> (string \<times> error option) \<times> event list" where
  "generateAndStore env keyTokenFile standardFormat userQuery cacheKey n =
     (case getCache env n cacheKey of
        Some cache \<Rightarrow> ((cache, None), [GetCacheE cacheKey])
      | None \<Rightarrow>
          (case generateLoop (createChatCompletion env) 0 of
             (Inl err, ev) \<Rightarrow>
               ((standardFormat, Some err),
                [GetCacheE cacheKey, SaveQueryE keyTokenFile userQuery] @ ev)
           | (Inr contentOutput, ev) \<Rightarrow>
               ((contentOutput, setCache env cacheKey contentOutput),
                [GetCacheE cacheKey, SaveQueryE keyTokenFile userQuery] @ ev
                  @ [SetCacheE cacheKey contentOutput 30])))"

definition GptTranslate ::
  "gptEnv \<Rightarrow> string \<Rightarrow> string \<Rightarrow> string \<Rightarrow> string \<Rightarrow> (string \<times> error option) \<times> event list" where
  "GptTranslate env keyTokenFile standardFormat inputDataFormat orgId =
     (let userQuery = userQueryOf standardFormat inputDataFormat in
      if length (apiKey env) = 0 then ((standardFormat, Some ApiKeyNotSet), [])
      else if length inputDataFormat > maxInputSize then ((standardFormat, Some InputTooLong), [])
      else
        (let md5Query = md5hex env (orgId @ systemMessage env @ userQuery);
             cacheKey = ''translationquery-'' @ md5Query;
             cacheKeyStarted = ''translationquery-'' @ md5Query @ ''-started'';
             ev0 = [Sleep (randomSleeptime env), GetCacheE cacheKeyStarted]
         in case getCache env 0 cacheKeyStarted of
              Some found \<Rightarrow>
                (case pollCache (getCache env) cacheKey 0 of
                   (Some cache, ev1) \<Rightarrow> ((cache, None), ev0 @ ev1)
                 | (None, ev1) \<Rightarrow>
                     (case generateAndStore env keyTokenFile standardFormat userQuery cacheKey
                             (maxIter + 2) of
                        (r, ev2) \<Rightarrow> (r, ev0 @ ev1 @ ev2)))
            | None \<Rightarrow>
                (case generateAndStore env keyTokenFile standardFormat userQuery cacheKey 1 of
                   (r, ev2) \<Rightarrow> (r, ev0 @ [SetCacheE cacheKeyStarted ''started'' 1] @ ev2))))"

text \<open>The two cache keys of a query, as \<^verbatim>\<open>GptTranslate\<close> builds them.\<close>

definition cacheKeyOf :: "gptEnv \<Rightarrow> string \<Rightarrow> string \<Rightarrow> string \<Rightarrow> string" where
  "cacheKeyOf env standardFormat inputDataFormat orgId =
     ''translationquery-''
       @ md5hex env (orgId @ systemMessage env @ userQueryOf standardFormat inputDataFormat)"

definition cacheKeyStartedOf :: "gptEnv \<Rightarrow> string \<Rightarrow> string \<Rightarrow> string \<Rightarrow> string" where
  "cacheKeyStartedOf env standardFormat inputDataFormat orgId =
     cacheKeyOf env standardFormat inputDataFormat orgId @ ''-started''"

text \<open>
  Two environments for concrete runs: in both the generator answers at once and the hash
  is the identity; in \<open>lockedEnv\<close> the cache holds the lock key and nothing else, in
  \<open>idleEnv\<close> it is empty.
\<close>

definition idleEnv :: gptEnv where
  "idleEnv = \<lparr> apiKey = ''sk'', randomSleeptime = 7, systemMessage = ''Translate'',
       md5hex = (\<lambda>s. s), getCache = (\<lambda>n name. None), setCache = (\<lambda>name data. None),
       createChatCompletion = (\<lambda>n. Inr ''{}'') \<rparr>"

definition lockedEnv :: gptEnv where
  "lockedEnv = idleEnv \<lparr> getCache :=
       (\<lambda>n name. if name = cacheKeyStartedOf idleEnv ''{}'' ''{}'' ''org'' then Some ''started'' else None) \<rparr>"

section \<open>Shape fingerprinting: \<^verbatim>\<open>RemoveJsonValues\<close>\<close>

text \<open>A key is dropped when it ends in one of the ten digits.\<close>

definition endsWithDigit :: "string \<Rightarrow> bool" where
  "endsWithDigit k = (k \<noteq> [] \<and> last k \<in> set ''1234567890'')"

lemma size_map_of:
  "map_of kvs k = Some v \<Longrightarrow> size v < Suc (size_list (size_prod (\<lambda>_. 0) size) kvs)"
  by (induction kvs) (auto split: if_splits)

text \<open>
  \<^verbatim>\<open>RemoveJsonValues\<close> on the decoded object (each call decodes its input first, and the
  recursive calls pass an object they have just encoded). It returns the skeleton, with
  its entries in the key order that \<^verbatim>\<open>json.MarshalIndent\<close> writes, and the key token.
  The keys are visited in sorted order. For a list value the token of an element is
  thrown away (\<^verbatim>\<open>_ = newKeyToken\<close>); for an object value it is appended after a dot
  while \<^verbatim>\<open>depth < 3\<close>.
\<close>

function RemoveJsonValues :: "(string \<times> json) list \<Rightarrow> int \<Rightarrow> (string \<times> json) list \<times> string" where
  "RemoveJsonValues jsonParsed depth =
     (let keys = sort (remdups (map fst jsonParsed));
          steps = map (\<lambda>k.
            if endsWithDigit k then ([], [])
            else
              (case map_of jsonParsed k of
                 None \<Rightarrow> ([], k)
               | Some v \<Rightarrow>
                   (case v of
                      JArr items \<Rightarrow>
                        ([(k, JArr (concat (map (\<lambda>item.
                             case item of
                               JObj parsedValue \<Rightarrow>
                                 (case RemoveJsonValues parsedValue (depth + 1) of
                                    (returnJson, newKeyToken) \<Rightarrow> [JObj returnJson])
                             | JArr sub \<Rightarrow> []
                             | JStr s \<Rightarrow> [JStr []]
                             | JNum n \<Rightarrow> [JNum 0]
                             | JBool b \<Rightarrow> [JBool False]
                             | JNull \<Rightarrow> []) items)))], k)
                    | JStr s \<Rightarrow> ([(k, JStr [])], k)
                    | JNum n \<Rightarrow> ([(k, JNum 0)], k)
                    | JBool b \<Rightarrow> ([(k, JBool False)], k)
                    | JObj sub \<Rightarrow>
                        (case RemoveJsonValues sub (depth + 1) of
                           (returnJson, newKeyToken) \<Rightarrow>
                             ([(k, JObj returnJson)],
                              k @ (if depth < 3 \<and> length newKeyToken > 0
                                   then ''.'' @ newKeyToken else [])))
                    | JNull \<Rightarrow> ([(k, JNull)], k)))) keys
      in (concat (map fst steps), concat (map snd steps)))"
  by pat_completeness auto
termination
  apply (relation "measure (\<lambda>(kvs, d). size_list (size_prod (\<lambda>_. 0) size) kvs)")
  apply simp
  subgoal for jsonParsed depth keys k v items item parsedValue
    apply (drule size_map_of)
    apply (subgoal_tac "size item \<le> size_list size items")
     apply simp
    apply (simp add: size_list_estimation')
    done
  subgoal for jsonParsed depth keys k v sub
    by (drule size_map_of) simp
  done

declare RemoveJsonValues.simps [simp del]



text \<open>
  The start of \<^verbatim>\<open>Translate\<close>: the token of the input at depth 1 and the file name that
  keys the stored translation, \<^verbatim>\<open>fmt.Sprintf("%s%s-%x", filenamePrefix, inputStandard,
  md5.Sum([]byte(keyToken)))\<close>; the hash is a parameter. An input that does not decode into a
  map is an error, and \<^verbatim>\<open>null\<close> decodes into the empty map.
\<close>

definition keyTokenOf :: "json \<Rightarrow> error + string" where
  "keyTokenOf startValue =
     (case startValue of
        JObj jsonParsed \<Rightarrow> Inr (snd (RemoveJsonValues jsonParsed 1))
      | JNull \<Rightarrow> Inr []
      | _ \<Rightarrow> Inl UnmarshalError)"

definition keyTokenFileOf :: "(string \<Rightarrow> string) \<Rightarrow> string \<Rightarrow> string \<Rightarrow> json \<Rightarrow> error + string" where
  "keyTokenFileOf md5 filenamePrefix inputStandard startValue =
     (case keyTokenOf startValue of
        Inl err \<Rightarrow> Inl err
      | Inr keyToken \<Rightarrow> Inr (filenamePrefix @ inputStandard @ ''-'' @ md5 keyToken))"

text \<open>The keys that reach the token, and what the value under a key adds to it.\<close>

definition subToken :: "(string \<times> json) list \<Rightarrow> int \<Rightarrow> string \<Rightarrow> string" where
  "subToken jsonParsed depth k =
     (case map_of jsonParsed k of
        Some (JObj sub) \<Rightarrow>
          (if depth < 3 \<and> length (snd (RemoveJsonValues sub (depth + 1))) > 0
           then ''.'' @ snd (RemoveJsonValues sub (depth + 1)) else [])
      | _ \<Rightarrow> [])"

definition keptKeys :: "(string \<times> json) list \<Rightarrow> string list" where
  "keptKeys jsonParsed = filter (\<lambda>k. \<not> endsWithDigit k) (sort (remdups (map fst jsonParsed)))"

text \<open>
  Two documents of the same shape: they differ in scalar leaves (a leaf is anything but a
  list or an object) and in what stands under keys that end in a digit, and nowhere else.
\<close>

inductive sameShape :: "json \<Rightarrow> json \<Rightarrow> bool" where
  scalars: "\<lbrakk> \<forall>xs. a \<noteq> JArr xs; \<forall>kvs. a \<noteq> JObj kvs; \<forall>xs. b \<noteq> JArr xs; \<forall>kvs. b \<noteq> JObj kvs \<rbrakk> \<Longrightarrow> sameShape a b"
| arrays: "list_all2 sameShape xs ys \<Longrightarrow> sameShape (JArr xs) (JArr ys)"
| objects: "\<lbrakk> set (keptKeys kv1) = set (keptKeys kv2);
      \<forall>k \<in> set (keptKeys kv1). \<exists>a b. map_of kv1 k = Some a \<and> map_of kv2 k = Some b \<and> sameShape a b \<rbrakk>
     \<Longrightarrow> sameShape (JObj kv1) (JObj kv2)"

text \<open>
  Two documents that agree down to a number of object levels: below that many levels,
  and inside every list, they are unrelated.
\<close>

inductive sameVisible :: "nat \<Rightarrow> json \<Rightarrow> json \<Rightarrow> bool" where
  same: "sameVisible n a a"
| inList: "sameVisible n (JArr xs) (JArr ys)"
| below: "sameVisible 0 a b"
| level: "\<lbrakk> set (map fst kv1) = set (map fst kv2);
      \<forall>k \<in> set (map fst kv1). \<exists>a b. map_of kv1 k = Some a \<and> map_of kv2 k = Some b \<and> sameVisible n a b \<rbrakk>
     \<Longrightarrow> sameVisible (Suc n) (JObj kv1) (JObj kv2)"

text \<open>Two documents for concrete runs.\<close>

definition ticketA :: "(string \<times> json) list" where
  "ticketA = [(''id'', JStr ''1234''), (''custom1'', JStr ''x''), (''tags'', JArr [JStr ''a'']),
              (''user'', JObj [(''name'', JStr ''ann''), (''age'', JNum 30)])]"

definition ticketB :: "(string \<times> json) list" where
  "ticketB = [(''user'', JObj [(''age'', JNull), (''name'', JStr ''bob''), (''field7'', JBool True)]),
              (''tags'', JArr [JStr ''b'']), (''id'', JNum 7)]"

definition deepA :: "(string \<times> json) list" where
  "deepA = [(''a'', JObj [(''b'', JObj [(''c'', JObj [(''deep'', JStr ''x'')])])]),
            (''items'', JArr [JObj [(''k'', JNum 1)]])]"

definition deepB :: "(string \<times> json) list" where
  "deepB = [(''a'', JObj [(''b'', JObj [(''c'', JStr ''scalar'')])]),
            (''items'', JArr [JObj [(''other'', JNum 2)], JObj [(''z'', JNum 1)]])]"

section \<open>Reverse inference: \<^verbatim>\<open>ReverseTranslate\<close>\<close>











definition readmeSource :: "(string \<times> json) list" where
  "readmeSource =
     [(''findme'', JStr ''This is the value to find''),
      (''subkey'', JObj
         [(''findAnother'', JStr ''This is another value to find''),
          (''subsubkey'', JObj [(''findAnother2'', JStr ''Amazing subsubkey to find'')]),
          (''sublist'', JArr [JStr ''This is a list'', JStr ''This is a list'', JStr ''Cool list item'',
                             JStr ''This is a list'']),
          (''objectlist'', JArr [JObj [(''key1'', JStr ''This is a key'')],
                                JObj [(''key1'', JStr ''Another cool thing'')]])])]"

definition readmeSample :: "(string \<times> json) list" where
  "readmeSample =
     [(''key1'', JStr ''This is the value to find''),
      (''key2'', JStr ''This is another value to find''),
      (''key3'', JStr ''Amazing subsubkey to find''),
      (''key4'', JStr ''Cool list item''),
      (''key5'', JStr ''Another cool thing'')]"




section \<open>Write-back: \<^verbatim>\<open>MapValueToLocation\<close>\<close>







lemma size_set_items:
  fixes xs :: "json list"
  shows "v \<in> set xs \<Longrightarrow> size v < Suc (size_list size xs)"
  by (induction xs) auto




section \<open>Forward application: \<^verbatim>\<open>recurseFindKey\<close>, \<^verbatim>\<open>handleMultiListItems\<close>, \<^verbatim>\<open>runJsonTranslation\<close>\<close>

text \<open>
  How a call of the forward engine ends: with a value, with the error it returns, with a
  panic (an index out of range or a failed type assertion), or, in the model only,
  with the call counter used up.
\<close>

datatype 'a outcome =
    Done 'a
  | Failed error
  | Panic
  | OutOfFuel

fun andThen :: "'a outcome \<Rightarrow> ('a \<Rightarrow> 'b outcome) \<Rightarrow> 'b outcome" where
  "andThen (Done x) f = f x"
| "andThen (Failed err) f = Failed err"
| "andThen Panic f = Panic"
| "andThen OutOfFuel f = OutOfFuel"

text \<open>
  \<^verbatim>\<open>strings.ReplaceAll\<close> (no call passes an empty \<^verbatim>\<open>old\<close>), the text after the first
  occurrence of a separator (\<^verbatim>\<open>strings.Join(strings.Split(s, sep)[1:], sep)\<close> and
  \<^verbatim>\<open>strings.SplitN(s, sep, 2)[1]\<close>), \<^verbatim>\<open>TrimSuffix\<close>, and \<^verbatim>\<open>Trim\<close> with a dot as the cut set.
\<close>

function replaceAll :: "string \<Rightarrow> string \<Rightarrow> string \<Rightarrow> string" where
  "replaceAll [] old new = []"
| "replaceAll (c # cs) old new =
     (if old \<noteq> [] \<and> hasPrefix (c # cs) old
      then new @ replaceAll (drop (length old) (c # cs)) old new
      else c # replaceAll cs old new)"
  by pat_completeness auto
termination
  by (relation "measure (\<lambda>(s, old, new). length s)") auto

fun afterFirst :: "string \<Rightarrow> string \<Rightarrow> string" where
  "afterFirst [] sep = []"
| "afterFirst (c # cs) sep =
     (if hasPrefix (c # cs) sep then drop (length sep) (c # cs) else afterFirst cs sep)"

definition trimSuffix :: "string \<Rightarrow> string \<Rightarrow> string" where
  "trimSuffix s suffix = (if hasSuffix s suffix then take (length s - length suffix) s else s)"

definition trimDots :: "string \<Rightarrow> string" where
  "trimDots s = rev (dropWhile (\<lambda>c. c = CHR ''.'') (rev (dropWhile (\<lambda>c. c = CHR ''.'') s)))"

definition getParsedMatch :: "string \<Rightarrow> string" where
  "getParsedMatch match0 =
     (let match1 = trimSpace match0;
          match2 = (if hasPrefix match1 ''$'' then trimPrefix match1 ''$'' else match1)
      in if hasSuffix match2 ''.'' then trimSuffix match2 ''.'' else match2)"

text \<open>\<^verbatim>\<open>fmt.Sprintf("%v", b)\<close> of a boolean.\<close>

definition formatBool :: "bool \<Rightarrow> string" where
  "formatBool b = (if b then ''true'' else ''false'')"

text \<open>
  \<^verbatim>\<open>recurseFindKey\<close> (its \<^verbatim>\<open>depth\<close> argument only feeds the log). The loop over the map
  looks for the one entry whose key is the first segment; when it does not return there,
  the function ends with the error that the key was not found. The result is always a
  string: a string leaf as it is, \<^verbatim>\<open>null\<close> as the empty string, an object or a list as its
  indented JSON text, a boolean or a number as \<^verbatim>\<open>%v\<close> prints it. Below a list, any segment
  that starts with a hash sign walks every item, and the strings found are returned as
  the text \<^verbatim>\<open>schemaless_list\<close> followed by their JSON array.
\<close>

function recurseFindKey :: "golib \<Rightarrow> (string \<times> json) list \<Rightarrow> string \<Rightarrow> error + string" where
  "recurseFindKey L input key0 =
     (let keys = splitOn CHR ''.'' key0;
          key = (if length keys > 1 then hd keys else key0)
      in case map_of input key of
           None \<Rightarrow> Inl (KeyNotFound key)
         | Some v \<Rightarrow>
             if length keys \<le> 1 then
               (case v of
                  JNull \<Rightarrow> Inr []
                | JStr val \<Rightarrow> Inr val
                | JObj val \<Rightarrow> Inr (marshalIndent L v)
                | JArr val \<Rightarrow> Inr (marshalIndent L v)
                | JBool val \<Rightarrow> Inr (formatBool val)
                | JNum val \<Rightarrow> Inr (formatFloat L val))
             else
               (let parsedKey = joinWith ''.'' (tl keys)
                in case v of
                     JObj mapValue \<Rightarrow>
                       (case recurseFindKey L mapValue parsedKey of
                          Inr foundValue \<Rightarrow> Inr foundValue
                        | Inl err \<Rightarrow>
                            if hasPrefix parsedKey [CHR 0x22] \<and> count_list parsedKey (CHR 0x22) > 1
                            then (case recurseFindKey L mapValue (filter (\<lambda>c. c \<noteq> CHR 0x22) parsedKey) of
                                    Inr foundValue \<Rightarrow> Inr foundValue
                                  | Inl err' \<Rightarrow> Inl (KeyNotFound key))
                            else Inl (KeyNotFound key))
                   | JArr listValue \<Rightarrow>
                       if length parsedKey > 0 \<and> hd parsedKey = CHR ''#'' then
                         (let itemKey =
                                (if contains parsedKey ''.''
                                 then (let parts = splitOn CHR ''.'' parsedKey
                                       in if length parts > 1 then joinWith ''.'' (tl parts) else hd parts)
                                 else parsedKey);
                              itemList = concat (map (\<lambda>item.
                                case item of
                                  JObj itemMap \<Rightarrow>
                                    (case recurseFindKey L itemMap itemKey of
                                       Inl err \<Rightarrow> []
                                     | Inr foundValue \<Rightarrow> [JStr foundValue])
                                | _ \<Rightarrow> [item]) listValue);
                              marshalled = marshal L (JArr itemList)
                          in if length marshalled > 2 then Inr (''schemaless_list'' @ marshalled)
                             else Inr [])
                       else Inl (KeyNotFound key)
                   | _ \<Rightarrow> Inl (KeyNotFound key)))"
  by pat_completeness auto
termination
  apply (relation "measure (\<lambda>(L, input, key). size_list (size_prod (\<lambda>_. 0) size) input)")
     apply (auto dest!: size_map_of size_set_items)
  done

declare recurseFindKey.simps [simp del]

text \<open>
  \<^verbatim>\<open>deepMerge\<close>, and \<^verbatim>\<open>setNestedMap\<close> (the copy it merges into is the map itself here; the
  flag it also returns is never read). The value is wrapped once for every segment of
  the path, from the last to the first, except for a segment \<^verbatim>\<open>#\<close> and for a segment
  under which the map holds a string without the marker; the type assertion on the
  wrapped value panics when nothing wrapped it.
\<close>

fun deepMerge :: "(string \<times> json) list \<Rightarrow> (string \<times> json) list \<Rightarrow> (string \<times> json) list" where
  "deepMerge dst [] = dst"
| "deepMerge dst ((k, v) # src) =
     deepMerge
       (case v of
          JObj vMap \<Rightarrow>
            (case map_of dst k of
               Some (JObj dvMap) \<Rightarrow> AList.update k (JObj (deepMerge dvMap vMap)) dst
             | _ \<Rightarrow> AList.update k v dst)
        | _ \<Rightarrow> AList.update k v dst)
       src"

definition nestUnder :: "(string \<times> json) list \<Rightarrow> string \<Rightarrow> json \<Rightarrow> json" where
  "nestUnder m key nested =
     (if key = ''#'' then nested
      else (case map_of m key of
              Some (JStr val) \<Rightarrow>
                if contains val ''schemaless_list'' then JObj [(key, nested)] else nested
            | _ \<Rightarrow> JObj [(key, nested)]))"

definition setNestedMap :: "(string \<times> json) list \<Rightarrow> string \<Rightarrow> json \<Rightarrow> (string \<times> json) list outcome" where
  "setNestedMap m path value =
     (case foldr (nestUnder m) (splitOn CHR ''.'' path) value of
        JObj nested \<Rightarrow> Done (deepMerge m nested)
      | _ \<Rightarrow> Panic)"


text \<open>
  \<^verbatim>\<open>handleMultiListItems\<close>. \<open>deferredMarker\<close> is the comparison string
  \<^verbatim>\<open>"<key>":"schemaless_list[\<close>; \<open>mapAt\<close> is an index followed by the assertion that the item
  is a map; \<open>newKeySplitOf\<close> is the loop that rebuilds the parent key below a list;
  \<open>placeValues\<close> is the loop over the resolved values (lines 1049 to 1078), which appends
  \<^verbatim>\<open>firstItem\<close> when the list is too short; \<open>updateParent\<close> is the loop over
  \<^verbatim>\<open>translatedInput\<close> below a list; \<open>mergeDeferred\<close> is the branch for a string value with the
  marker; \<open>walkItems\<close> and \<open>walkKeys\<close> are the loops over a list value and over the keys
  of \<^verbatim>\<open>parsedValues\<close>, with the recursive call as the parameter \<open>rec\<close>. The function may call
  itself on a map it has just put together, so the calls are counted.
\<close>

definition quoted :: "string \<Rightarrow> string" where
  "quoted s = [CHR 0x22] @ s @ [CHR 0x22]"

definition deferredMarker :: "string \<Rightarrow> string" where
  "deferredMarker key = quoted key @ '':'' @ [CHR 0x22] @ ''schemaless_list[''"

definition mapAt :: "json list \<Rightarrow> nat \<Rightarrow> (string \<times> json) list outcome" where
  "mapAt items i =
     (if i < length items then (case items ! i of JObj m \<Rightarrow> Done m | _ \<Rightarrow> Panic) else Panic)"

definition newKeySplitOf :: "string list \<Rightarrow> nat \<Rightarrow> string list" where
  "newKeySplitOf parentKeySplit listDepth =
     snd (fold (\<lambda>(cnt, part) (counter, newKeySplit).
            (let counter1 = (if part = ''#'' then counter + 1 else counter);
                 newKeySplit1 = (if part = ''#'' \<and> cnt > 0
                                 then newKeySplit @ [parentKeySplit ! (cnt - 1)] else newKeySplit)
             in (counter1,
                 if int counter1 - 1 = int listDepth then newKeySplit1 @ [part] else newKeySplit1)))
          (List.enumerate 0 parentKeySplit) (0::nat, []))"

primrec placeValues ::
  "golib \<Rightarrow> json \<Rightarrow> string \<Rightarrow> string list \<Rightarrow> nat \<Rightarrow> json list \<Rightarrow> bool \<Rightarrow> (json list \<times> bool) outcome" where
  "placeValues L firstItem newKey [] cnt modificationList updated = Done (modificationList, updated)"
| "placeValues L firstItem newKey (listValue # rest) cnt modificationList updated =
     (let modificationList1 =
            (if cnt \<ge> length modificationList then modificationList @ [firstItem]
             else modificationList)
      in andThen (mapAt modificationList1 cnt) (\<lambda>newModList.
           if \<not> contains (marshal L (JObj newModList)) (deferredMarker newKey)
           then placeValues L firstItem newKey rest (cnt + 1) modificationList1 updated
           else andThen (setNestedMap newModList newKey (JStr listValue)) (\<lambda>newModList'.
                  placeValues L firstItem newKey rest (cnt + 1)
                    (modificationList1 [cnt := JObj newModList']) True)))"

primrec updateParent ::
  "golib \<Rightarrow> string \<Rightarrow> string \<Rightarrow> json \<Rightarrow> json list \<Rightarrow> (json list \<times> bool) outcome" where
  "updateParent L childKey oldParentKey modificationList [] = Done ([], False)"
| "updateParent L childKey oldParentKey modificationList (item # rest) =
     (case item of
        JObj newMap \<Rightarrow>
          if \<not> contains (marshal L item) (deferredMarker childKey)
          then andThen (updateParent L childKey oldParentKey modificationList rest)
                 (\<lambda>(rest', updated). Done (item # rest', updated))
          else andThen (setNestedMap newMap oldParentKey modificationList)
                 (\<lambda>newMap'. Done (JObj newMap' # rest, True))
      | _ \<Rightarrow> Panic)"

definition mergeDeferred ::
  "golib \<Rightarrow> string \<Rightarrow> string \<Rightarrow> string \<Rightarrow> nat \<Rightarrow> nat \<Rightarrow> json list \<Rightarrow> (string \<times> json) list
     \<Rightarrow> (json list \<times> (string \<times> json) list) outcome" where
  "mergeDeferred L parentKey childKey val listDepth childIndex translatedInput parsedValues =
     (let matchingList = afterFirst val ''schemaless_list'';
          unmarshalledList = unmarshalStrings L matchingList;
          newParentKey =
            (if listDepth > 0
             then joinWith ''.'' (newKeySplitOf (splitOn CHR ''.'' parentKey) listDepth)
             else parentKey);
          modificationList = (if listDepth > 0 then [JObj parsedValues] else translatedInput);
          newKey = afterFirst (newParentKey @ ''.'' @ childKey) ''.''
      in if modificationList = [] then Panic
         else
           andThen (placeValues L (hd modificationList) newKey unmarshalledList 0 modificationList False)
             (\<lambda>(modificationList', updated).
                andThen (if updated then mapAt modificationList' childIndex else Done parsedValues)
                  (\<lambda>parsedValues1.
                     if listDepth > 0 then
                       (let oldParentKey =
                              (if hasPrefix parentKey ''.'' then trimDots parentKey else parentKey)
                        in andThen (updateParent L childKey oldParentKey (JArr modificationList')
                                      translatedInput)
                             (\<lambda>(translatedInput1, updated1).
                                andThen
                                  (if updated1 then Done translatedInput1
                                   else andThen (setNestedMap [] oldParentKey (JArr modificationList'))
                                          (\<lambda>newMap. Done (translatedInput @ [JObj newMap])))
                                  (\<lambda>translatedInput2.
                                     andThen (mapAt modificationList' childIndex)
                                       (\<lambda>parsedValues2. Done (translatedInput2, parsedValues2)))))
                     else
                       andThen (mapAt modificationList' childIndex)
                         (\<lambda>parsedValues2. Done (modificationList', parsedValues2)))))"

primrec walkItems ::
  "(json list \<Rightarrow> (string \<times> json) list \<Rightarrow> nat \<Rightarrow> json list outcome) \<Rightarrow> json list \<Rightarrow> nat \<Rightarrow> json list
     \<Rightarrow> json list outcome" where
  "walkItems rec [] cnt translatedInput = Done translatedInput"
| "walkItems rec (subItem # rest) cnt translatedInput =
     (case subItem of
        JObj parsedSubitem \<Rightarrow>
          andThen (rec translatedInput parsedSubitem cnt) (walkItems rec rest (cnt + 1))
      | _ \<Rightarrow> walkItems rec rest (cnt + 1) translatedInput)"

primrec walkKeys ::
  "(json list \<Rightarrow> string \<Rightarrow> (string \<times> json) list \<Rightarrow> nat \<Rightarrow> nat \<Rightarrow> json list outcome) \<Rightarrow> golib \<Rightarrow> string
     \<Rightarrow> nat \<Rightarrow> nat \<Rightarrow> string list \<Rightarrow> json list \<Rightarrow> (string \<times> json) list \<Rightarrow> json list outcome" where
  "walkKeys rec L parentKey listDepth childIndex [] translatedInput parsedValues = Done translatedInput"
| "walkKeys rec L parentKey listDepth childIndex (childKey # rest) translatedInput parsedValues =
     (case map_of parsedValues childKey of
        Some (JObj val) \<Rightarrow>
          andThen (rec translatedInput (parentKey @ ''.'' @ childKey) val listDepth childIndex)
            (\<lambda>translatedInput1.
               walkKeys rec L parentKey listDepth childIndex rest translatedInput1 parsedValues)
      | Some (JArr val) \<Rightarrow>
          andThen (walkItems
                     (\<lambda>translatedInput1 parsedSubitem cnt.
                        rec translatedInput1 (parentKey @ ''.'' @ childKey @ ''.#'') parsedSubitem
                          (listDepth + 1) cnt)
                     val 0 translatedInput)
            (\<lambda>translatedInput1.
               walkKeys rec L parentKey listDepth childIndex rest translatedInput1 parsedValues)
      | Some (JStr val) \<Rightarrow>
          if contains val ''schemaless_list[''
          then andThen (mergeDeferred L parentKey childKey val listDepth childIndex translatedInput
                          parsedValues)
                 (\<lambda>(translatedInput1, parsedValues1).
                    walkKeys rec L parentKey listDepth childIndex rest translatedInput1 parsedValues1)
          else walkKeys rec L parentKey listDepth childIndex rest translatedInput parsedValues
      | _ \<Rightarrow> walkKeys rec L parentKey listDepth childIndex rest translatedInput parsedValues)"

fun handleMultiListItems ::
  "nat \<Rightarrow> golib \<Rightarrow> json list \<Rightarrow> string \<Rightarrow> (string \<times> json) list \<Rightarrow> nat \<Rightarrow> nat \<Rightarrow> json list outcome" where
  "handleMultiListItems 0 L translatedInput parentKey parsedValues listDepth childIndex = OutOfFuel"
| "handleMultiListItems (Suc fuel) L translatedInput parentKey parsedValues listDepth childIndex =
     walkKeys (handleMultiListItems fuel L) L parentKey listDepth childIndex (map fst parsedValues)
       (if \<not> contains parentKey ''.'' \<and> length translatedInput = 0
        then translatedInput @ [JObj parsedValues] else translatedInput)
       parsedValues"


text \<open>
  \<^verbatim>\<open>runJsonTranslation\<close> on the decoded input. \<open>pathKey\<close> rewrites \<^verbatim>\<open>[]\<close> to \<^verbatim>\<open>.#\<close> and drops
  double quotes; \<open>resolved\<close> is \<^verbatim>\<open>recurseFindKey\<close> with the error dropped (the result is then
  the empty string); \<open>translateString\<close>, \<open>translateListValue\<close> and \<open>translateValue\<close> are the branches
  for a template value that names no key of the input; \<open>translateEntries\<close> is the loop over
  the template. \<^verbatim>\<open>modifiedParsedInput\<close> is the same map as \<^verbatim>\<open>parsedInput\<close>, so a field that is
  found by name changes the input that the later fields are resolved against; the nested
  calls decode \<^verbatim>\<open>inputValue\<close> afresh. With \<^verbatim>\<open>keepOriginal\<close> the output refers to that map under
  \<^verbatim>\<open>unmapped\<close>, unless a field of that name overwrites it. The results are the two maps
  that the source returns as JSON text. The call counter bounds the nesting of templates
  and the calls of \<^verbatim>\<open>handleMultiListItems\<close>.
\<close>

definition pathKey :: "string \<Rightarrow> string" where
  "pathKey val = filter (\<lambda>c. c \<noteq> CHR 0x22) (replaceAll val ''[]'' ''.#'')"

definition resolved :: "golib \<Rightarrow> (string \<times> json) list \<Rightarrow> string \<Rightarrow> string" where
  "resolved L parsedInput key =
     (case recurseFindKey L parsedInput key of Inl err \<Rightarrow> [] | Inr recursed \<Rightarrow> recursed)"

definition translateString :: "golib \<Rightarrow> (string \<times> json) list \<Rightarrow> string \<Rightarrow> json" where
  "translateString L parsedInput val =
     (if contains val ''.'' then
        (if contains val ''$'' then
           JStr (fold (\<lambda>match0 newOutput.
                   replaceAll newOutput match0 (resolved L parsedInput (getParsedMatch match0)))
                 (findAllString L (pathKey val)) val)
         else JStr (resolved L parsedInput (pathKey val)))
      else JStr val)"

primrec translateListValue ::
  "((string \<times> json) list \<Rightarrow> (string \<times> json) list outcome) \<Rightarrow> nat \<Rightarrow> golib \<Rightarrow> (string \<times> json) list
     \<Rightarrow> json list \<Rightarrow> json list \<Rightarrow> json \<Rightarrow> (json list \<times> json) outcome" where
  "translateListValue rec fuel L parsedInput [] newOutput translationValue = Done (newOutput, translationValue)"
| "translateListValue rec fuel L parsedInput (v # rest) newOutput translationValue =
     (case v of
        JObj newValue \<Rightarrow>
          andThen (rec newValue) (\<lambda>outputParsed.
            if contains (marshalIndent L (JObj outputParsed)) ''schemaless_list[''
            then andThen (handleMultiListItems fuel L (newOutput @ [JObj outputParsed]) []
                            outputParsed 0 0)
                   (\<lambda>newTranslatedInput. Done ([], JArr newTranslatedInput))
            else translateListValue rec fuel L parsedInput rest (newOutput @ [JObj outputParsed])
                   translationValue)
      | JStr stringVal \<Rightarrow>
          (case recurseFindKey L parsedInput (pathKey stringVal) of
             Inr recursed \<Rightarrow> translateListValue rec fuel L parsedInput rest newOutput (JArr [JStr recursed])
           | Inl err \<Rightarrow> translateListValue rec fuel L parsedInput rest newOutput (JArr []))
      | _ \<Rightarrow> translateListValue rec fuel L parsedInput rest (newOutput @ [v]) translationValue)"

definition translateValue ::
  "((string \<times> json) list \<Rightarrow> (string \<times> json) list outcome) \<Rightarrow> nat \<Rightarrow> golib \<Rightarrow> (string \<times> json) list
     \<Rightarrow> json \<Rightarrow> json outcome" where
  "translateValue rec fuel L parsedInput translationValue =
     (case translationValue of
        JNum n \<Rightarrow> Done translationValue
      | JArr val \<Rightarrow>
          andThen (translateListValue rec fuel L parsedInput val [] translationValue)
            (\<lambda>(newOutput, translationValue1).
               Done (if length newOutput > 0 then JArr newOutput else translationValue1))
      | JObj val \<Rightarrow>
          andThen (rec val) (\<lambda>translationValueParsed.
            Done (if length translationValueParsed = 0 then translationValue
                  else JObj translationValueParsed))
      | JStr val \<Rightarrow> Done (translateString L parsedInput val)
      | _ \<Rightarrow> Done translationValue)"

primrec translateEntries ::
  "((string \<times> json) list \<Rightarrow> (string \<times> json) list outcome) \<Rightarrow> nat \<Rightarrow> golib \<Rightarrow> (string \<times> json) list
     \<Rightarrow> (string \<times> json) list \<Rightarrow> (string \<times> json) list
     \<Rightarrow> ((string \<times> json) list \<times> (string \<times> json) list) outcome" where
  "translateEntries rec fuel L [] parsedInput translatedInput = Done (translatedInput, parsedInput)"
| "translateEntries rec fuel L (entry # rest) parsedInput translatedInput =
     (case entry of (translationKey, translationValue) \<Rightarrow>
        (case (case translationValue of JStr name \<Rightarrow> map_of parsedInput name | _ \<Rightarrow> None) of
           Some inputValue \<Rightarrow>
             translateEntries rec fuel L rest
               (AList.update translationKey inputValue parsedInput)
               (AList.update translationKey inputValue translatedInput)
         | None \<Rightarrow>
             andThen (translateValue rec fuel L parsedInput translationValue) (\<lambda>value.
               translateEntries rec fuel L rest parsedInput
                 (AList.update translationKey value translatedInput))))"

definition decodeObject :: "json \<Rightarrow> (string \<times> json) list outcome" where
  "decodeObject inputValue =
     (case inputValue of
        JObj parsedInput \<Rightarrow> Done parsedInput
      | JNull \<Rightarrow> Done []
      | _ \<Rightarrow> Failed UnmarshalError)"

fun runJsonTranslation ::
  "nat \<Rightarrow> golib \<Rightarrow> json \<Rightarrow> (string \<times> json) list \<Rightarrow> bool
     \<Rightarrow> ((string \<times> json) list \<times> (string \<times> json) list) outcome" where
  "runJsonTranslation 0 L inputValue translation keepOriginal = OutOfFuel"
| "runJsonTranslation (Suc fuel) L inputValue translation keepOriginal =
     andThen (decodeObject inputValue) (\<lambda>parsedInput.
       andThen (translateEntries
                  (\<lambda>val. andThen (runJsonTranslation fuel L inputValue val False)
                            (\<lambda>(translatedOutput, modifiedOutput). Done translatedOutput))
                  fuel L translation parsedInput
                  (if keepOriginal then [(''unmapped'', JObj parsedInput)] else []))
         (\<lambda>(translatedInput, modifiedParsedInput).
            Done (if keepOriginal \<and> ''unmapped'' \<notin> fst ` set translation
                  then AList.update ''unmapped'' (JObj modifiedParsedInput) translatedInput
                  else translatedInput,
                  modifiedParsedInput)))"


text \<open>
  A library for concrete runs. \<open>goMarshal\<close> and \<open>goMarshalIndent\<close> write JSON as
  \<^verbatim>\<open>encoding/json\<close> does for ASCII text: keys sorted, the double quote, the backslash
  and the line feed, carriage return and tab escaped with a backslash, the other control
  characters and the three HTML characters as \<^verbatim>\<open>\u00XX\<close>, and the indented form with a tab
  per level; a whole number is written in digits up to 21 of them. \<open>goFormatFloat\<close> is
  \<^verbatim>\<open>%v\<close> of a whole number: digits up to six of them, the exponent form beyond. \<open>goUnmarshalStrings\<close> decodes an
  array of strings in which only the double quote and the backslash are escaped, and
  anything else to the empty list. \<open>goFindAllString\<close> scans for the matches of
  \<^verbatim>\<open>[$]{1}([a-zA-Z0-9_@-]+\.?){1}([a-zA-Z0-9#_@-]+\.?){0,}\<close>: a dollar sign, a run of name
  characters, and then dots and runs of name characters or hash signs for as long as no
  two dots meet. No run below holds a JSON-encoded string, and the object decoder of
  \<open>goLib\<close> answers with the empty map.
\<close>

definition hexDigit :: "nat \<Rightarrow> char" where
  "hexDigit n = (if n < 10 then char_of (48 + n) else char_of (87 + n))"

definition escapeByte :: "char \<Rightarrow> string" where
  "escapeByte c =
     (if c = CHR 0x22 then [CHR 0x5C, CHR 0x22]
      else if c = CHR 0x5C then [CHR 0x5C, CHR 0x5C]
      else if c = CHR 0x0A then [CHR 0x5C, CHR ''n'']
      else if c = CHR 0x0D then [CHR 0x5C, CHR ''r'']
      else if c = CHR 0x09 then [CHR 0x5C, CHR ''t'']
      else if (of_char c :: nat) < 32 \<or> c \<in> {CHR ''<'', CHR ''>'', CHR ''&''}
        then [CHR 0x5C, CHR ''u'', CHR ''0'', CHR ''0'', hexDigit (of_char c div 16), hexDigit (of_char c mod 16)]
      else [c])"

definition encodeString :: "string \<Rightarrow> string" where
  "encodeString s = quoted (concat (map escapeByte s))"

definition exponentForm :: "string \<Rightarrow> nat \<Rightarrow> string" where
  "exponentForm digits width =
     (let mantissa = rev (dropWhile (\<lambda>c. c = CHR ''0'') (rev digits));
          exponent = digitsOf (length digits - 1)
      in take 1 mantissa @ (if drop 1 mantissa = [] then [] else ''.'' @ drop 1 mantissa)
         @ ''e+'' @ replicate (width - length exponent) (CHR ''0'') @ exponent)"

definition encodeNumber :: "int \<Rightarrow> string" where
  "encodeNumber n =
     (let digits = digitsOf (nat \<bar>n\<bar>)
      in (if n < 0 then ''-'' else [])
         @ (if length digits \<le> 21 then digits else exponentForm digits 1))"

definition sortedEntries :: "(string \<times> json) list \<Rightarrow> (string \<times> json) list" where
  "sortedEntries kvs = map (\<lambda>k. (k, the (map_of kvs k))) (sort (remdups (map fst kvs)))"

lemma size_sortedEntries:
  "(k, v) \<in> set (sortedEntries kvs) \<Longrightarrow> size v < Suc (size_list (size_prod (\<lambda>_. 0) size) kvs)"
proof -
  assume "(k, v) \<in> set (sortedEntries kvs)"
  then have "k \<in> fst ` set kvs" and v: "v = the (map_of kvs k)" by (auto simp: sortedEntries_def)
  then obtain w where "map_of kvs k = Some w" by (cases "map_of kvs k") (auto simp: map_of_eq_None_iff)
  with v size_map_of [of kvs k w] show ?thesis by simp
qed

function goMarshal :: "json \<Rightarrow> string" where
  "goMarshal JNull = ''null''"
| "goMarshal (JBool b) = formatBool b"
| "goMarshal (JNum n) = encodeNumber n"
| "goMarshal (JStr s) = encodeString s"
| "goMarshal (JArr xs) = ''['' @ joinWith '','' (map goMarshal xs) @ '']''"
| "goMarshal (JObj kvs) =
     ''{'' @ joinWith '','' (map (\<lambda>(k, v). encodeString k @ '':'' @ goMarshal v) (sortedEntries kvs)) @ ''}''"
  by pat_completeness auto
termination
  apply (relation "measure size")
    apply (auto dest!: size_sortedEntries size_set_items)
  done

function goMarshalIndent :: "nat \<Rightarrow> json \<Rightarrow> string" where
  "goMarshalIndent depth JNull = ''null''"
| "goMarshalIndent depth (JBool b) = formatBool b"
| "goMarshalIndent depth (JNum n) = encodeNumber n"
| "goMarshalIndent depth (JStr s) = encodeString s"
| "goMarshalIndent depth (JArr xs) =
     (if xs = [] then ''[]''
      else ''['' @ [CHR 0x0A] @ replicate (Suc depth) (CHR 0x09)
           @ joinWith ('','' @ [CHR 0x0A] @ replicate (Suc depth) (CHR 0x09))
               (map (goMarshalIndent (Suc depth)) xs)
           @ [CHR 0x0A] @ replicate depth (CHR 0x09) @ '']'')"
| "goMarshalIndent depth (JObj kvs) =
     (if kvs = [] then ''{}''
      else ''{'' @ [CHR 0x0A] @ replicate (Suc depth) (CHR 0x09)
           @ joinWith ('','' @ [CHR 0x0A] @ replicate (Suc depth) (CHR 0x09))
               (map (\<lambda>(k, v). encodeString k @ '': '' @ goMarshalIndent (Suc depth) v) (sortedEntries kvs))
           @ [CHR 0x0A] @ replicate depth (CHR 0x09) @ ''}'')"
  by pat_completeness auto
termination
  apply (relation "measure (\<lambda>(d, v). size v)")
    apply (auto dest!: size_sortedEntries size_set_items)
  done

definition goFormatFloat :: "int \<Rightarrow> string" where
  "goFormatFloat n =
     (let digits = digitsOf (nat \<bar>n\<bar>)
      in (if n < 0 then ''-'' else [])
         @ (if length digits \<le> 6 then digits else exponentForm digits 2))"

fun decodeStringBody :: "string \<Rightarrow> (string \<times> string) option" where
  "decodeStringBody [] = None"
| "decodeStringBody (c # cs) =
     (if c = CHR 0x22 then Some ([], cs)
      else if c = CHR 0x5C then
        (case cs of
           [] \<Rightarrow> None
         | e # rest \<Rightarrow>
             if e = CHR 0x22 \<or> e = CHR 0x5C
             then (case decodeStringBody rest of None \<Rightarrow> None | Some (s, r) \<Rightarrow> Some (e # s, r))
             else None)
      else (case decodeStringBody cs of None \<Rightarrow> None | Some (s, r) \<Rightarrow> Some (c # s, r)))"

lemma decodeStringBody_length: "decodeStringBody s = Some (v, r) \<Longrightarrow> length r < length s"
proof (induction s arbitrary: v r rule: decodeStringBody.induct)
  case 1
  then show ?case by simp
next
  case (2 c cs)
  then show ?case
    by (auto split: if_splits list.splits option.splits) fastforce+
qed

function decodeStrings :: "string \<Rightarrow> string list option" where
  "decodeStrings s =
     (case s of
        c # cs \<Rightarrow>
          if c = CHR 0x22 then
            (case decodeStringBody cs of
               None \<Rightarrow> None
             | Some (v, r) \<Rightarrow>
                 (case r of
                    d # ds \<Rightarrow>
                      if d = CHR '']'' \<and> ds = [] then Some [v]
                      else if d = CHR '','' then
                        (case decodeStrings ds of None \<Rightarrow> None | Some vs \<Rightarrow> Some (v # vs))
                      else None
                  | [] \<Rightarrow> None))
          else None
      | [] \<Rightarrow> None)"
  by pat_completeness auto
termination
  apply (relation "measure length")
   apply (auto dest!: decodeStringBody_length)
  done

declare decodeStrings.simps [simp del]

definition goUnmarshalStrings :: "string \<Rightarrow> string list" where
  "goUnmarshalStrings s =
     (if s = ''[]'' then []
      else (case s of
              c # cs \<Rightarrow> if c = CHR ''['' then (case decodeStrings cs of None \<Rightarrow> [] | Some vs \<Rightarrow> vs) else []
            | [] \<Rightarrow> []))"

definition isRefChar :: "char \<Rightarrow> bool" where
  "isRefChar c =
     ((CHR ''a'' \<le> c \<and> c \<le> CHR ''z'') \<or> (CHR ''A'' \<le> c \<and> c \<le> CHR ''Z'')
      \<or> (CHR ''0'' \<le> c \<and> c \<le> CHR ''9'') \<or> c = CHR ''_'' \<or> c = CHR ''@'' \<or> c = CHR ''-'')"

definition isRefCharHash :: "char \<Rightarrow> bool" where
  "isRefCharHash c = (isRefChar c \<or> c = CHR ''#'')"

lemma dropWhile_shorter: "P x \<Longrightarrow> length (dropWhile P (x # xs)) < Suc (length xs)"
  using length_dropWhile_le [of P xs] by simp

function refTail :: "string \<Rightarrow> string" where
  "refTail [] = []"
| "refTail (c # cs) =
     (if c = CHR ''.'' then
        (case cs of
           [] \<Rightarrow> ''.''
         | d # ds \<Rightarrow>
             if isRefCharHash d
             then ''.'' @ takeWhile isRefCharHash cs @ refTail (dropWhile isRefCharHash cs)
             else ''.'')
      else if isRefCharHash c
        then takeWhile isRefCharHash (c # cs) @ refTail (dropWhile isRefCharHash (c # cs))
      else [])"
  by pat_completeness auto
termination
  apply (relation "measure length")
    apply simp
   apply (metis dropWhile_shorter in_measure length_Cons less_Suc_eq)
  apply (metis dropWhile_shorter in_measure length_Cons)
  done

function goFindAllString :: "string \<Rightarrow> string list" where
  "goFindAllString [] = []"
| "goFindAllString (c # cs) =
     (if c = CHR ''$'' \<and> cs \<noteq> [] \<and> isRefChar (hd cs)
      then (let run = takeWhile isRefChar cs;
                tail = refTail (dropWhile isRefChar cs)
            in (c # run @ tail) # goFindAllString (drop (length (run @ tail)) cs))
      else goFindAllString cs)"
  by pat_completeness auto
termination
  by (relation "measure length") auto

definition goLib :: golib where
  "goLib = \<lparr> marshal = goMarshal, marshalIndent = goMarshalIndent 0, formatFloat = goFormatFloat,
     unmarshalObject = (\<lambda>s. []), unmarshalStrings = goUnmarshalStrings,
     findAllString = goFindAllString \<rparr>"


text \<open>
  The forward scenario of the specification, and a template whose two fields walk two
  lists of different lengths, with its fields in either order.
\<close>

definition kmsSource :: json where
  "kmsSource = JObj [(''secret'', JObj [(''name'', JStr ''username''),
       (''version'', JObj [(''version'', JStr ''1''), (''type'', JStr ''kv''), (''value'', JStr ''frikky'')])])]"




definition alignTemplate :: "(string \<times> json) list" where
  "alignTemplate = [(''rows'', JArr [JObj [(''A'', JStr ''as.#.v''), (''B'', JStr ''bs.#.v'')]])]"

definition alignTemplateBA :: "(string \<times> json) list" where
  "alignTemplateBA = [(''rows'', JArr [JObj [(''B'', JStr ''bs.#.v''), (''A'', JStr ''as.#.v'')]])]"

definition alignSource :: json where
  "alignSource = JObj
     [(''as'', JArr [JObj [(''v'', JStr ''a0'')], JObj [(''v'', JStr ''a1'')], JObj [(''v'', JStr ''a2'')]]),
      (''bs'', JArr [JObj [(''v'', JStr ''b0'')], JObj [(''v'', JStr ''b1'')]])]"

text \<open>
  The text that stands for a value found at the end of a dotted path, the value at the end
  of a path that leads through objects only, and a name free of the characters that the
  forward engine gives a meaning to: the dot, the dollar sign, the double quote and the
  opening bracket.
\<close>

definition leafText :: "golib \<Rightarrow> json \<Rightarrow> string" where
  "leafText L v =
     (case v of
        JNull \<Rightarrow> []
      | JStr val \<Rightarrow> val
      | JBool val \<Rightarrow> formatBool val
      | JNum val \<Rightarrow> formatFloat L val
      | _ \<Rightarrow> marshalIndent L v)"

fun lookupPath :: "(string \<times> json) list \<Rightarrow> string list \<Rightarrow> json option" where
  "lookupPath m [] = None"
| "lookupPath m [key] = map_of m key"
| "lookupPath m (key # rest) =
     (case map_of m key of Some (JObj sub) \<Rightarrow> lookupPath sub rest | _ \<Rightarrow> None)"

definition plainName :: "string \<Rightarrow> bool" where
  "plainName s = (\<forall>c \<in> set s. c \<notin> {CHR ''.'', CHR ''$'', CHR 0x22, CHR ''[''})"

definition kmsFields :: "(string \<times> json) list" where
  "kmsFields = [(''secret'', JObj [(''name'', JStr ''username''),
       (''version'', JObj [(''version'', JStr ''1''), (''type'', JStr ''kv''), (''value'', JStr ''frikky'')])])]"








section \<open>Properties of sub-standard expansion\<close>

lemma succeeded_Cons:
  "succeeded translate (x # xs) =
     (case translate x of Inl err \<Rightarrow> [] | Inr out \<Rightarrow> [out]) @ succeeded translate xs"
  by (simp add: succeeded_def)

lemma succeeded_Nil: "succeeded translate [] = []"
  by (simp add: succeeded_def)

lemma translateItems_later:
  "0 < cnt \<Longrightarrow> cnt \<le> Suc skipAfterCount \<Longrightarrow>
   translateItems translate cnt items acc
     = acc @ succeeded translate (take (Suc (Suc skipAfterCount) - cnt) items)"
proof (induction items arbitrary: cnt acc)
  case Nil
  then show ?case by (simp add: succeeded_Nil)
next
  case (Cons x xs)
  obtain d where d: "Suc (Suc skipAfterCount) - cnt = Suc d" and d': "d = Suc skipAfterCount - cnt"
    using Cons.prems by (cases "Suc (Suc skipAfterCount) - cnt") auto
  show ?case
  proof (cases "cnt > skipAfterCount")
    case True
    with Cons.prems have "d = 0" using d' by simp
    with True Cons.prems show ?thesis
      unfolding d by (simp add: succeeded_Cons succeeded_Nil Let_def split: sum.splits)
  next
    case False
    have ih: "translateItems translate (Suc cnt) xs acc' = acc' @ succeeded translate (take d xs)" for acc'
      using Cons.IH [of "Suc cnt" acc'] False d' by simp
    from False Cons.prems show ?thesis
      unfolding d by (simp add: succeeded_Cons Let_def ih split: sum.splits)
  qed
qed

lemma translateItems_all:
  "translateItems translate 0 items [] = succeeded translate (take 52 items)"
proof (cases items)
  case Nil
  then show ?thesis by (simp add: succeeded_Nil)
next
  case (Cons x xs)
  have t: "take 52 (x # xs) = x # take 51 xs" by (simp add: take_Cons')
  have l: "translateItems translate (Suc 0) xs acc = acc @ succeeded translate (take 51 xs)" for acc
    using translateItems_later [of "Suc 0" translate xs acc] by (simp add: skipAfterCount_def)
  show ?thesis unfolding Cons t
    by (simp add: l succeeded_Cons split: sum.splits)
qed

text \<open>
  C9. Whatever the length of the input list, the returned text holds the translations of
  the items at indices 0 to 51 only (those among them that succeeded): the list and its
  first 52 items give the same result, and items from index 52 on never reach it.
\<close>

theorem handleSubStandard_first_52:
  "handleSubStandard translate (JArr listJson)
     = Inr (''['' @ joinOutputs 0 (succeeded translate (take 52 listJson)) @ '']'')"
  by (cases listJson) (simp_all add: handleSubStandard_def translateList_def translateItems_all succeeded_Nil del: translateItems.simps)

section \<open>Properties of single-flight generation\<close>

lemma pollCache_miss:
  "(\<And>n. rd n cacheKey = None) \<Longrightarrow> cnt \<le> maxIter \<Longrightarrow>
   pollCache rd cacheKey cnt
     = (None, concat (replicate (maxIter - cnt) [GetCacheE cacheKey, Sleep 5000]) @ [GetCacheE cacheKey])"
proof (induction rd cacheKey cnt rule: pollCache.induct)
  case (1 rd cacheKey cnt)
  show ?case
  proof (cases "cnt \<ge> maxIter")
    case True
    with "1.prems" show ?thesis by (subst pollCache.simps) simp
  next
    case False
    then have lt: "cnt < maxIter" by simp
    then obtain d where d: "maxIter - cnt = Suc d" and d': "maxIter - (cnt + 1) = d"
      by (cases "maxIter - cnt") auto
    have ih: "pollCache rd cacheKey (cnt + 1)
                = (None, concat (replicate d [GetCacheE cacheKey, Sleep 5000]) @ [GetCacheE cacheKey])"
      using "1.IH" [OF _ False] "1.prems" lt d' by simp
    show ?thesis
      using ih by (subst pollCache.simps) (simp add: "1.prems"(1) False d sleepTime_def)
  qed
qed

lemma generateLoop_first:
  "\<exists>ev. snd (generateLoop create 0) = CreateChatCompletionE # ev"
  by (subst generateLoop.simps) (simp split: sum.splits prod.splits)

lemma generateAndStore_miss:
  "getCache env n cacheKey = None \<Longrightarrow>
   \<exists>ev. snd (generateAndStore env keyTokenFile standardFormat userQuery cacheKey n)
          = [GetCacheE cacheKey, SaveQueryE keyTokenFile userQuery, CreateChatCompletionE] @ ev"
  using generateLoop_first [of "createChatCompletion env"]
  by (auto simp: generateAndStore_def split: prod.splits sum.splits)

text \<open>
  C6. With an API key and an input within the size limit: a caller that finds the lock key
  present and never sees the result key reads the result key seven times, five seconds
  apart, reads it once more, and then saves the query and calls the generator; a caller
  that finds the lock key absent writes it (one minute) and reads the result key, and
  when that read misses it saves the query and calls the generator.
\<close>

theorem GptTranslate_single_flight:
  fixes env :: gptEnv and keyTokenFile standardFormat inputDataFormat orgId :: string
  defines "ck \<equiv> cacheKeyOf env standardFormat inputDataFormat orgId"
      and "cks \<equiv> cacheKeyStartedOf env standardFormat inputDataFormat orgId"
      and "uq \<equiv> userQueryOf standardFormat inputDataFormat"
  assumes "apiKey env \<noteq> []" and "length inputDataFormat \<le> maxInputSize"
  shows "(getCache env 0 cks \<noteq> None \<longrightarrow> (\<forall>n. getCache env n ck = None) \<longrightarrow>
            (\<exists>r ev. GptTranslate env keyTokenFile standardFormat inputDataFormat orgId
               = (r, [Sleep (randomSleeptime env), GetCacheE cks]
                     @ concat (replicate 6 [GetCacheE ck, Sleep 5000])
                     @ [GetCacheE ck]
                     @ [GetCacheE ck, SaveQueryE keyTokenFile uq, CreateChatCompletionE] @ ev)))
       \<and> (getCache env 0 cks = None \<longrightarrow>
            (\<exists>r ev. GptTranslate env keyTokenFile standardFormat inputDataFormat orgId
               = (r, [Sleep (randomSleeptime env), GetCacheE cks, SetCacheE cks ''started'' 1,
                      GetCacheE ck] @ ev)))
       \<and> (getCache env 0 cks = None \<longrightarrow> getCache env 1 ck = None \<longrightarrow>
            (\<exists>r ev. GptTranslate env keyTokenFile standardFormat inputDataFormat orgId
               = (r, [Sleep (randomSleeptime env), GetCacheE cks, SetCacheE cks ''started'' 1,
                      GetCacheE ck, SaveQueryE keyTokenFile uq, CreateChatCompletionE] @ ev)))"
proof -
  have ks: "''translationquery-'' @ md5hex env (orgId @ systemMessage env @ uq) = ck"
           "''translationquery-'' @ md5hex env (orgId @ systemMessage env @ uq) @ ''-started'' = cks"
    by (simp_all add: ck_def cks_def cacheKeyOf_def cacheKeyStartedOf_def uq_def)
  have A: "\<exists>r ev. GptTranslate env keyTokenFile standardFormat inputDataFormat orgId
               = (r, [Sleep (randomSleeptime env), GetCacheE cks]
                     @ concat (replicate 6 [GetCacheE ck, Sleep 5000])
                     @ [GetCacheE ck]
                     @ [GetCacheE ck, SaveQueryE keyTokenFile uq, CreateChatCompletionE] @ ev)"
    if locked: "getCache env 0 cks \<noteq> None" and miss: "\<forall>n. getCache env n ck = None"
  proof -
    have p: "pollCache (getCache env) ck 0
               = (None, concat (replicate maxIter [GetCacheE ck, Sleep 5000]) @ [GetCacheE ck])"
      using pollCache_miss [of "getCache env" ck 0] miss by simp
    obtain ev where g: "snd (generateAndStore env keyTokenFile standardFormat uq ck (maxIter + 2))
            = [GetCacheE ck, SaveQueryE keyTokenFile uq, CreateChatCompletionE] @ ev"
      using generateAndStore_miss miss by blast
    from locked obtain found where f: "getCache env 0 cks = Some found" by auto
    show ?thesis
      using assms(4,5) g
      unfolding GptTranslate_def Let_def uq_def [symmetric] ks
      by (cases "generateAndStore env keyTokenFile standardFormat uq ck (maxIter + 2)")
         (simp add: f p, simp add: maxIter_def)
  qed
  have B: "\<exists>r ev. GptTranslate env keyTokenFile standardFormat inputDataFormat orgId
               = (r, [Sleep (randomSleeptime env), GetCacheE cks, SetCacheE cks ''started'' 1,
                      GetCacheE ck] @ ev)
             \<and> (getCache env 1 ck = None \<longrightarrow>
                    (\<exists>ev'. ev = [SaveQueryE keyTokenFile uq, CreateChatCompletionE] @ ev'))"
    if free: "getCache env 0 cks = None"
  proof -
    obtain r ev2 where G: "generateAndStore env keyTokenFile standardFormat uq ck 1 = (r, ev2)"
      by (cases "generateAndStore env keyTokenFile standardFormat uq ck 1")
    have "\<exists>ev. ev2 = GetCacheE ck # ev"
      using G by (auto simp: generateAndStore_def split: option.splits prod.splits sum.splits)
    then obtain ev where ev: "ev2 = GetCacheE ck # ev" by blast
    have gen: "getCache env 1 ck = None \<longrightarrow>
                 (\<exists>ev'. ev = [SaveQueryE keyTokenFile uq, CreateChatCompletionE] @ ev')"
      using generateAndStore_miss [of env 1 ck keyTokenFile standardFormat uq] G ev by auto
    have "GptTranslate env keyTokenFile standardFormat inputDataFormat orgId
                 = (r, [Sleep (randomSleeptime env), GetCacheE cks, SetCacheE cks ''started'' 1,
                        GetCacheE ck] @ ev)"
      using assms(4,5) G
      unfolding GptTranslate_def Let_def uq_def [symmetric] ks
      by (simp add: free ev)
    with gen show ?thesis
      by (intro exI [of _ r] exI [of _ ev] conjI)
  qed
  from A B show ?thesis
    apply (intro conjI impI)
      apply blast
     apply metis
    apply (metis append_Cons append_Nil)
    done
qed

theorem GptTranslate_single_flight_witness:
  "apiKey lockedEnv \<noteq> [] \<and> length ''{}'' \<le> maxInputSize
   \<and> getCache lockedEnv 0 (cacheKeyStartedOf lockedEnv ''{}'' ''{}'' ''org'') \<noteq> None
   \<and> (\<forall>n. getCache lockedEnv n (cacheKeyOf lockedEnv ''{}'' ''{}'' ''org'') = None)
   \<and> (\<exists>r ev. GptTranslate lockedEnv ''ticket-0'' ''{}'' ''{}'' ''org''
         = (r, [Sleep (randomSleeptime lockedEnv),
                GetCacheE (cacheKeyStartedOf lockedEnv ''{}'' ''{}'' ''org'')]
               @ concat (replicate 6 [GetCacheE (cacheKeyOf lockedEnv ''{}'' ''{}'' ''org''), Sleep 5000])
               @ [GetCacheE (cacheKeyOf lockedEnv ''{}'' ''{}'' ''org'')]
               @ [GetCacheE (cacheKeyOf lockedEnv ''{}'' ''{}'' ''org''),
                  SaveQueryE ''ticket-0'' (userQueryOf ''{}'' ''{}''), CreateChatCompletionE] @ ev))"
proof -
  have h1: "apiKey lockedEnv \<noteq> []" by (simp add: lockedEnv_def idleEnv_def)
  have h2: "length ''{}'' \<le> maxInputSize" by (simp add: maxInputSize_def)
  have h3: "getCache lockedEnv 0 (cacheKeyStartedOf lockedEnv ''{}'' ''{}'' ''org'') \<noteq> None"
    by (simp add: lockedEnv_def idleEnv_def cacheKeyStartedOf_def cacheKeyOf_def)
  have h4: "\<forall>n. getCache lockedEnv n (cacheKeyOf lockedEnv ''{}'' ''{}'' ''org'') = None"
    by (simp add: lockedEnv_def idleEnv_def cacheKeyStartedOf_def cacheKeyOf_def)
  from GptTranslate_single_flight
         [OF h1 h2, where keyTokenFile = "''ticket-0''" and standardFormat = "''{}''" and orgId = "''org''"]
       h3 h4
  have "\<exists>r ev. GptTranslate lockedEnv ''ticket-0'' ''{}'' ''{}'' ''org''
         = (r, [Sleep (randomSleeptime lockedEnv),
                GetCacheE (cacheKeyStartedOf lockedEnv ''{}'' ''{}'' ''org'')]
               @ concat (replicate 6 [GetCacheE (cacheKeyOf lockedEnv ''{}'' ''{}'' ''org''), Sleep 5000])
               @ [GetCacheE (cacheKeyOf lockedEnv ''{}'' ''{}'' ''org'')]
               @ [GetCacheE (cacheKeyOf lockedEnv ''{}'' ''{}'' ''org''),
                  SaveQueryE ''ticket-0'' (userQueryOf ''{}'' ''{}''), CreateChatCompletionE] @ ev)"
    by blast
  with h1 h2 h3 h4 show ?thesis by blast
qed

section \<open>Properties of shape fingerprinting\<close>

lemma concat_map_if_Nil:
  "concat (map (\<lambda>k. if P k then [] else h k) xs) = concat (map h (filter (\<lambda>k. \<not> P k) xs))"
  by (induction xs) auto

lemma RemoveJsonValues_token:
  "snd (RemoveJsonValues jsonParsed depth)
     = concat (map (\<lambda>k. k @ subToken jsonParsed depth k) (keptKeys jsonParsed))"
proof -
  have "snd (RemoveJsonValues jsonParsed depth)
      = concat (map (\<lambda>k. if endsWithDigit k then [] else k @ subToken jsonParsed depth k)
          (sort (remdups (map fst jsonParsed))))"
    apply (subst RemoveJsonValues.simps)
    apply (simp add: Let_def comp_def)
    apply (rule arg_cong [where f = concat])
    apply (rule map_cong [OF refl])
    apply (auto simp: subToken_def split: option.splits json.splits prod.splits)
    done
  then show ?thesis by (simp add: concat_map_if_Nil keptKeys_def)
qed

lemma keptKeys_sorted: "sorted (keptKeys kvs)" "distinct (keptKeys kvs)"
  by (simp_all add: keptKeys_def sorted_wrt_filter)

lemma keptKeys_eq: "set (keptKeys a) = set (keptKeys b) \<Longrightarrow> keptKeys a = keptKeys b"
  using keptKeys_sorted sorted_distinct_set_unique by blast

lemma sameShape_token_aux:
  "sameShape x y \<Longrightarrow> (\<forall>a b depth. x = JObj a \<longrightarrow> y = JObj b \<longrightarrow>
      snd (RemoveJsonValues a depth) = snd (RemoveJsonValues b depth))"
proof (induction rule: sameShape.induct)
  case (scalars a b)
  then show ?case by simp
next
  case (arrays xs ys)
  then show ?case by simp
next
  case (objects kv1 kv2)
  have keys: "keptKeys kv1 = keptKeys kv2" using objects(1) by (rule keptKeys_eq)
  have sub: "subToken kv1 depth k = subToken kv2 depth k" if "k \<in> set (keptKeys kv1)" for k depth
  proof -
    from objects(2) that obtain a b where ab: "map_of kv1 k = Some a" "map_of kv2 k = Some b"
      "sameShape a b"
      "\<forall>a' b' depth. a = JObj a' \<longrightarrow> b = JObj b' \<longrightarrow>
          snd (RemoveJsonValues a' depth) = snd (RemoveJsonValues b' depth)"
      by blast
    from ab(3) show ?thesis
      by (cases rule: sameShape.cases) (use ab in \<open>auto simp: subToken_def split: json.splits\<close>)
  qed
  show ?case
    using sub by (auto simp: RemoveJsonValues_token keys [symmetric] intro!: arg_cong [where f = concat])
qed

text \<open>
  C2. Two object documents that differ only in their scalar leaves and in what stands under
  keys that end in a digit have the same key token, and so the same file name (cache
  key) for every hash, prefix and standard.
\<close>

theorem fingerprint_stable:
  "sameShape (JObj a) (JObj b) \<Longrightarrow>
     keyTokenOf (JObj a) = keyTokenOf (JObj b)
     \<and> keyTokenFileOf md5 filenamePrefix inputStandard (JObj a)
         = keyTokenFileOf md5 filenamePrefix inputStandard (JObj b)"
  using sameShape_token_aux [of "JObj a" "JObj b"]
  by (simp add: keyTokenOf_def keyTokenFileOf_def)

lemma keptKeys_ticketA: "keptKeys ticketA = [''id'', ''tags'', ''user'']"
  by code_simp

lemma keptKeys_ticketB: "keptKeys ticketB = [''id'', ''tags'', ''user'']"
  by code_simp

lemma keptKeys_userA: "keptKeys [(''name'', JStr ''ann''), (''age'', JNum 30)] = [''age'', ''name'']"
  by code_simp

lemma keptKeys_userB: "keptKeys [(''age'', JNull), (''name'', JStr ''bob''), (''field7'', JBool True)] = [''age'', ''name'']"
  by code_simp

lemma sameShape_tickets: "sameShape (JObj ticketA) (JObj ticketB)"
proof (rule sameShape.objects)
  show "set (keptKeys ticketA) = set (keptKeys ticketB)"
    by (simp add: keptKeys_ticketA keptKeys_ticketB)
  have user: "sameShape (JObj [(''name'', JStr ''ann''), (''age'', JNum 30)])
                (JObj [(''age'', JNull), (''name'', JStr ''bob''), (''field7'', JBool True)])"
    by (rule sameShape.objects)
       (auto simp: keptKeys_userA keptKeys_userB intro: sameShape.scalars)
  have tags: "sameShape (JArr [JStr ''a'']) (JArr [JStr ''b''])"
    by (rule sameShape.arrays) (simp add: sameShape.scalars)
  have ident: "sameShape (JStr ''1234'') (JNum 7)"
    by (rule sameShape.scalars) simp_all
  show "\<forall>k\<in>set (keptKeys ticketA).
       \<exists>a b. map_of ticketA k = Some a \<and> map_of ticketB k = Some b \<and> sameShape a b"
    unfolding keptKeys_ticketA using user tags ident by (simp add: ticketA_def ticketB_def)
qed

theorem fingerprint_stable_witness:
  "sameShape (JObj ticketA) (JObj ticketB)
   \<and> keyTokenOf (JObj ticketA) = keyTokenOf (JObj ticketB)
   \<and> keyTokenFileOf (\<lambda>s. s) [] ''ticket'' (JObj ticketA) = keyTokenFileOf (\<lambda>s. s) [] ''ticket'' (JObj ticketB)"
  using fingerprint_stable [OF sameShape_tickets, of "\<lambda>s. s" "[]" "''ticket''"] sameShape_tickets
  by simp

lemma sameVisible_token_aux:
  "sameVisible n x y \<Longrightarrow> (\<forall>a b depth. x = JObj a \<longrightarrow> y = JObj b \<longrightarrow> 0 < n \<longrightarrow> 4 - depth \<le> int n \<longrightarrow>
      snd (RemoveJsonValues a depth) = snd (RemoveJsonValues b depth))"
proof (induction rule: sameVisible.induct)
  case (same n a)
  then show ?case by simp
next
  case (inList n xs ys)
  then show ?case by simp
next
  case (below a b)
  then show ?case by simp
next
  case (level kv1 kv2 n)
  have "sort (remdups (map fst kv1)) = sort (remdups (map fst kv2))"
    using level(1) by (intro sorted_distinct_set_unique) simp_all
  then have keys: "keptKeys kv1 = keptKeys kv2" by (simp add: keptKeys_def)
  have sub: "subToken kv1 depth k = subToken kv2 depth k"
    if "k \<in> set (keptKeys kv1)" and d: "4 - depth \<le> int (Suc n)" for k depth
  proof (cases "depth < 3")
    case False
    then show ?thesis by (simp add: subToken_def split: option.splits json.splits)
  next
    case True
    with d have n: "0 < n" "4 - (depth + 1) \<le> int n" by simp_all
    from that(1) have "k \<in> set (map fst kv1)" by (auto simp: keptKeys_def)
    with level(2) obtain a b where ab: "map_of kv1 k = Some a" "map_of kv2 k = Some b"
      "sameVisible n a b"
      "\<forall>a' b' depth. a = JObj a' \<longrightarrow> b = JObj b' \<longrightarrow> 0 < n \<longrightarrow> 4 - depth \<le> int n \<longrightarrow>
          snd (RemoveJsonValues a' depth) = snd (RemoveJsonValues b' depth)"
      by blast
    from ab(3) show ?thesis
      by (cases rule: sameVisible.cases) (use ab n in \<open>auto simp: subToken_def split: json.splits\<close>)
  qed
  show ?case
    using sub by (auto simp: RemoveJsonValues_token keys [symmetric] intro!: arg_cong [where f = concat])
qed

lemma RemoveJsonValues_deep:
  "3 \<le> depth \<Longrightarrow> snd (RemoveJsonValues jsonParsed depth) = concat (keptKeys jsonParsed)"
proof -
  assume "3 \<le> depth"
  then have "subToken jsonParsed depth k = []" for k
    by (simp add: subToken_def split: option.splits json.splits)
  then show ?thesis by (simp add: RemoveJsonValues_token)
qed

text \<open>
  C10. Two object documents that have the same keys with the same nesting on their first
  three object levels, and are unrelated inside lists and below the third level, have the
  same key token and file name; and from depth 3 on, the token of an object is the
  concatenation of its own kept keys, whatever stands under them.
\<close>

theorem token_ignores_lists_and_depth:
  "(sameVisible 3 (JObj a) (JObj b) \<longrightarrow>
      keyTokenOf (JObj a) = keyTokenOf (JObj b)
      \<and> keyTokenFileOf md5 filenamePrefix inputStandard (JObj a)
          = keyTokenFileOf md5 filenamePrefix inputStandard (JObj b))
   \<and> (3 \<le> depth \<longrightarrow> snd (RemoveJsonValues a depth) = concat (keptKeys a))"
  using sameVisible_token_aux [of 3 "JObj a" "JObj b"] RemoveJsonValues_deep [of depth a]
  by (simp add: keyTokenOf_def keyTokenFileOf_def)

lemma sameVisible_deep: "sameVisible 3 (JObj deepA) (JObj deepB)"
proof -
  have c: "sameVisible (Suc 0) (JObj [(''c'', JObj [(''deep'', JStr ''x'')])]) (JObj [(''c'', JStr ''scalar'')])"
    by (rule sameVisible.level) (simp_all add: sameVisible.below)
  have b: "sameVisible (Suc (Suc 0)) (JObj [(''b'', JObj [(''c'', JObj [(''deep'', JStr ''x'')])])])
             (JObj [(''b'', JObj [(''c'', JStr ''scalar'')])])"
    by (rule sameVisible.level) (simp_all add: c)
  have "sameVisible (Suc (Suc (Suc 0))) (JObj deepA) (JObj deepB)"
    unfolding deepA_def deepB_def
    by (rule sameVisible.level) (simp_all add: b sameVisible.inList)
  then show ?thesis by (simp add: numeral_3_eq_3)
qed

theorem token_ignores_lists_and_depth_witness:
  "sameVisible 3 (JObj deepA) (JObj deepB)
   \<and> keyTokenOf (JObj deepA) = keyTokenOf (JObj deepB)
   \<and> keyTokenFileOf (\<lambda>s. s) [] ''ticket'' (JObj deepA) = keyTokenFileOf (\<lambda>s. s) [] ''ticket'' (JObj deepB)
   \<and> (3::int) \<le> 3
   \<and> snd (RemoveJsonValues deepA 3) = concat (keptKeys deepA)"
  using token_ignores_lists_and_depth [of deepA deepB "\<lambda>s. s" "[]" "''ticket''" 3] sameVisible_deep
  by simp

section \<open>Properties of reverse inference\<close>




















section \<open>Properties of list selectors\<close>








lemma splitOn_no_sep: "sep \<notin> set s \<Longrightarrow> splitOn sep s = [s]"
  by (induction s) auto

lemma splitOn_append: "sep \<notin> set a \<Longrightarrow> splitOn sep (a @ sep # b) = a # splitOn sep b"
  by (induction a) auto

lemma hasPrefix_single: "hasPrefix s [c] = (s \<noteq> [] \<and> hd s = c)"
  by (cases s) auto

lemma contains_single: "contains s [c] = (c \<in> set s)"
  by (induction s) (auto simp: hasPrefix_single)
















section \<open>Properties of forward application\<close>

lemma splitOn_joinWith:
  "ks \<noteq> [] \<Longrightarrow> \<forall>k \<in> set ks. sep \<notin> set k \<Longrightarrow> splitOn sep (joinWith [sep] ks) = ks"
proof (induction ks)
  case Nil
  then show ?case by simp
next
  case (Cons k ks)
  show ?case
  proof (cases ks)
    case Nil
    with Cons.prems show ?thesis by (simp add: splitOn_no_sep)
  next
    case (Cons k2 rest)
    with Cons.IH Cons.prems have "splitOn sep (joinWith [sep] (k2 # rest)) = k2 # rest" by simp
    with Cons.prems show ?thesis
      using splitOn_append [of sep k "joinWith [sep] (k2 # rest)"] by (simp add: Cons)
  qed
qed

lemma recurseFindKey_leaf:
  "CHR ''.'' \<notin> set key \<Longrightarrow> map_of input key = Some v \<Longrightarrow>
   recurseFindKey L input key = Inr (leafText L v)"
  by (subst recurseFindKey.simps)
     (simp add: splitOn_no_sep leafText_def split: json.splits)

lemma recurseFindKey_path:
  "\<forall>k \<in> set ks. CHR ''.'' \<notin> set k \<Longrightarrow> lookupPath m ks = Some v \<Longrightarrow>
   recurseFindKey L m (joinWith ''.'' ks) = Inr (leafText L v)"
proof (induction m ks rule: lookupPath.induct)
  case (1 m)
  then show ?case by simp
next
  case (2 m key)
  then show ?case by (simp add: recurseFindKey_leaf)
next
  case (3 m key k' rest)
  from "3.prems"(2) obtain sub where sub: "map_of m key = Some (JObj sub)"
      and look: "lookupPath sub (k' # rest) = Some v"
    by (auto split: option.splits json.splits)
  have split: "splitOn CHR ''.'' (joinWith ''.'' (key # k' # rest)) = key # k' # rest"
    using splitOn_joinWith [of "key # k' # rest" "CHR ''.''"] "3.prems"(1) by simp
  have ih: "recurseFindKey L sub (joinWith ''.'' (k' # rest)) = Inr (leafText L v)"
    using "3.IH" [OF sub refl] "3.prems"(1) look by simp
  show ?case
    by (subst recurseFindKey.simps) (simp add: split sub ih Let_def del: joinWith.simps)
qed


lemma replaceAll_absent: "old \<noteq> [] \<Longrightarrow> hd old \<notin> set s \<Longrightarrow> replaceAll s old new = s"
proof (induction s)
  case Nil
  then show ?case by simp
next
  case (Cons c cs)
  then have "\<not> hasPrefix (c # cs) old" by (cases old) auto
  with Cons show ?case by simp
qed

lemma pathKey_plain: "CHR 0x22 \<notin> set s \<Longrightarrow> CHR ''['' \<notin> set s \<Longrightarrow> pathKey s = s"
  by (auto simp: pathKey_def replaceAll_absent filter_id_conv)

lemma translateValue_string:
  "translateValue rec fuel L parsedInput (JStr val) = Done (translateString L parsedInput val)"
  by (simp add: translateValue_def)



lemma contains_joinWith:
  "2 \<le> length ks \<Longrightarrow> contains (joinWith ''.'' ks) ''.''"
proof -
  assume "2 \<le> length ks"
  then obtain a b rest where "ks = a # b # rest"
    by (cases ks; cases "tl ks") auto
  then show ?thesis by (simp add: contains_single)
qed

lemma joinWith_chars:
  "c \<in> set (joinWith sep ks) \<Longrightarrow> c \<in> set sep \<or> (\<exists>k \<in> set ks. c \<in> set k)"
  by (induction sep ks rule: joinWith.induct) auto

text \<open>
  C7, as amended. A spec string that is the name of a top-level key of the source gives the
  value under that key, in its native type. A dotted path of plain names that leads
  through objects to a value gives a string: the value itself when it is a string, and
  otherwise its text (\<^verbatim>\<open>%v\<close> of a boolean or a number, the indented JSON of an object or
  a list, the empty string for \<^verbatim>\<open>null\<close>).
\<close>

theorem single_reference_value:
  "(map_of src name = Some v \<longrightarrow>
      runJsonTranslation (Suc fuel) L (JObj src) [(k, JStr name)] False
        = Done ([(k, v)], AList.update k v src))
   \<and> (2 \<le> length ks \<and> (\<forall>s \<in> set ks. plainName s) \<and> map_of src (joinWith ''.'' ks) = None
        \<and> lookupPath src ks = Some v \<longrightarrow>
      runJsonTranslation (Suc fuel) L (JObj src) [(k, JStr (joinWith ''.'' ks))] False
        = Done ([(k, JStr (leafText L v))], src))"
proof (intro conjI impI)
  assume "map_of src name = Some v"
  then show "runJsonTranslation (Suc fuel) L (JObj src) [(k, JStr name)] False
        = Done ([(k, v)], AList.update k v src)"
    by (simp add: decodeObject_def)
next
  assume a: "2 \<le> length ks \<and> (\<forall>s \<in> set ks. plainName s) \<and> map_of src (joinWith ''.'' ks) = None
        \<and> lookupPath src ks = Some v"
  let ?p = "joinWith ''.'' ks"
  have nodot: "\<forall>s \<in> set ks. CHR ''.'' \<notin> set s" using a by (auto simp: plainName_def)
  have chars: "CHR ''$'' \<notin> set ?p" "CHR 0x22 \<notin> set ?p" "CHR ''['' \<notin> set ?p"
    using a joinWith_chars [of _ "''.''" ks] by (auto simp: plainName_def)
  have r: "recurseFindKey L src ?p = Inr (leafText L v)"
    using recurseFindKey_path [OF nodot] a by simp
  have d: "contains ?p ''.''" using a contains_joinWith by blast
  have nd: "\<not> contains ?p ''$''" using chars by (simp add: contains_single)
  have "translateString L src ?p = JStr (leafText L v)"
    using chars by (simp add: translateString_def d nd pathKey_plain resolved_def r)
  with a show "runJsonTranslation (Suc fuel) L (JObj src) [(k, JStr ?p)] False
        = Done ([(k, JStr (leafText L v))], src)"
    by (simp add: decodeObject_def translateValue_string)
qed



text \<open>
  C7 as stated fails: below the top level a boolean comes out as the string \<^verbatim>\<open>true\<close> and a
  number as the string of its digits.
\<close>

theorem native_type_lost:
  "runJsonTranslation 1 goLib (JObj [(''a'', JObj [(''b'', JBool True), (''n'', JNum 5)])])
       [(''k'', JStr ''a.b''), (''m'', JStr ''a.n'')] False
     = Done ([(''k'', JStr ''true''), (''m'', JStr ''5'')],
             [(''a'', JObj [(''b'', JBool True), (''n'', JNum 5)])])"
  by code_simp

theorem single_reference_value_witness:
  "map_of kmsFields ''secret'' = Some (JObj [(''name'', JStr ''username''),
       (''version'', JObj [(''version'', JStr ''1''), (''type'', JStr ''kv''), (''value'', JStr ''frikky'')])])
   \<and> runJsonTranslation (Suc 0) goLib (JObj kmsFields) [(''kms'', JStr ''secret'')] False
       = Done ([(''kms'', JObj [(''name'', JStr ''username''),
                 (''version'', JObj [(''version'', JStr ''1''), (''type'', JStr ''kv''), (''value'', JStr ''frikky'')])])],
               AList.update ''kms'' (JObj [(''name'', JStr ''username''),
                 (''version'', JObj [(''version'', JStr ''1''), (''type'', JStr ''kv''), (''value'', JStr ''frikky'')])])
                 kmsFields)
   \<and> 2 \<le> length [''secret'', ''version'', ''value'']
   \<and> plainName ''secret'' \<and> plainName ''version'' \<and> plainName ''value''
   \<and> map_of kmsFields (joinWith ''.'' [''secret'', ''version'', ''value'']) = None
   \<and> lookupPath kmsFields [''secret'', ''version'', ''value''] = Some (JStr ''frikky'')
   \<and> runJsonTranslation (Suc 0) goLib (JObj kmsFields)
         [(''kms_value'', JStr (joinWith ''.'' [''secret'', ''version'', ''value'']))] False
       = Done ([(''kms_value'', JStr (leafText goLib (JStr ''frikky'')))], kmsFields)"
proof -
  let ?secret = "JObj [(''name'', JStr ''username''),
       (''version'', JObj [(''version'', JStr ''1''), (''type'', JStr ''kv''), (''value'', JStr ''frikky'')])]"
  have h1: "map_of kmsFields ''secret'' = Some ?secret" by (simp add: kmsFields_def)
  have h2: "2 \<le> length [''secret'', ''version'', ''value'']
     \<and> (\<forall>s \<in> set [''secret'', ''version'', ''value'']. plainName s)
     \<and> map_of kmsFields (joinWith ''.'' [''secret'', ''version'', ''value'']) = None
     \<and> lookupPath kmsFields [''secret'', ''version'', ''value''] = Some (JStr ''frikky'')"
    by (simp add: kmsFields_def plainName_def)
  from single_reference_value
         [where src = kmsFields and name = "''secret''" and v = ?secret and fuel = 0 and L = goLib
            and k = "''kms''"] h1
  have a: "runJsonTranslation (Suc 0) goLib (JObj kmsFields) [(''kms'', JStr ''secret'')] False
       = Done ([(''kms'', ?secret)], AList.update ''kms'' ?secret kmsFields)"
    by blast
  from single_reference_value
         [where src = kmsFields and ks = "[''secret'', ''version'', ''value'']" and v = "JStr ''frikky''"
            and fuel = 0 and L = goLib and k = "''kms_value''"] h2
  have b: "runJsonTranslation (Suc 0) goLib (JObj kmsFields)
         [(''kms_value'', JStr (joinWith ''.'' [''secret'', ''version'', ''value'']))] False
       = Done ([(''kms_value'', JStr (leafText goLib (JStr ''frikky'')))], kmsFields)"
    by blast
  have h3: "plainName ''secret'' \<and> plainName ''version'' \<and> plainName ''value''"
    by (simp add: plainName_def)
  from h1 h2 h3 a b show ?thesis by simp
qed

text \<open>
  C8 at two inputs that differ in the order of the two fields: \<^verbatim>\<open>A\<close> walks three items and
  \<^verbatim>\<open>B\<close> two. With \<^verbatim>\<open>B\<close> merged first, the third row repeats the value of \<^verbatim>\<open>B\<close> in the first
  row. With \<^verbatim>\<open>A\<close> merged first, the third row keeps the marker string under \<^verbatim>\<open>B\<close>.
\<close>

theorem alignment_keeps_marker:
  "runJsonTranslation 3 goLib alignSource alignTemplate False
     = Done ([(''rows'', JArr
               [JObj [(''A'', JStr ''a0''), (''B'', JStr ''b0'')],
                JObj [(''A'', JStr ''a1''), (''B'', JStr ''b1'')],
                JObj [(''A'', JStr ''a2''),
                      (''B'', JStr (''schemaless_list['' @ [CHR 0x22] @ ''b0'' @ [CHR 0x22] @ '',''
                                     @ [CHR 0x22] @ ''b1'' @ [CHR 0x22] @ '']''))]])],
             [(''as'', JArr [JObj [(''v'', JStr ''a0'')], JObj [(''v'', JStr ''a1'')], JObj [(''v'', JStr ''a2'')]]),
              (''bs'', JArr [JObj [(''v'', JStr ''b0'')], JObj [(''v'', JStr ''b1'')]])])
   \<and> runJsonTranslation 3 goLib alignSource alignTemplateBA False
     = Done ([(''rows'', JArr
               [JObj [(''B'', JStr ''b0''), (''A'', JStr ''a0'')],
                JObj [(''B'', JStr ''b1''), (''A'', JStr ''a1'')],
                JObj [(''B'', JStr ''b0''), (''A'', JStr ''a2'')]])],
             [(''as'', JArr [JObj [(''v'', JStr ''a0'')], JObj [(''v'', JStr ''a1'')], JObj [(''v'', JStr ''a2'')]]),
              (''bs'', JArr [JObj [(''v'', JStr ''b0'')], JObj [(''v'', JStr ''b1'')]])])"
  by code_simp

section \<open>Properties of the round trip\<close>















end
